theory Spec2Isabelle
  imports Complex_Main "HOL-Library.Log_Nat"
begin

section \<open>Gas stock ledger: an embedding of backend/app.py\<close>

text \<open>
  The backend keeps a table of stock movements (\<open>StockRecord\<close>) and a single row of
  totals (\<open>StockSummary\<close>). Each request handler of \<open>app.py\<close> is a function from
  the committed database to a response and the database after the request.
  A handler that raises an uncaught exception answers 500 and commits nothing, so
  the database after it is the database before it.

  Weights, amounts and totals are Python floats, stored in SQLite \<open>Float\<close> columns:
  IEEE doubles, rounded to nearest with ties to even after every operation.
\<close>

subsection \<open>Python floats\<close>

text \<open>
  A double is a rational on the double grid, an infinity or a NaN. Zero carries no
  sign here: a negative zero compares, adds and tests like zero in every handler.
\<close>

datatype double = Finite rat | PosInf | NegInf | NaN

definition round_half_even :: "rat \<Rightarrow> int" where
  "round_half_even x =
     (let f = \<lfloor>x\<rfloor>; d = x - of_int f
      in if d < 1 / 2 then f else if 1 / 2 < d then f + 1
         else if even f then f else f + 1)"

text \<open>The exponent of a positive rational: \<open>2 powi ilog2 a \<le> a < 2 powi (ilog2 a + 1)\<close>.\<close>

definition ilog2 :: "rat \<Rightarrow> int" where
  "ilog2 a = (if 1 \<le> a then bitlen \<lfloor>a\<rfloor> - 1 else - bitlen (\<lceil>1 / a\<rceil> - 1))"

text \<open>
  The double nearest to a rational: 53 significant bits, exponents down to -1022
  and subnormals below, infinity from \<open>2 ^ 1024\<close> on after rounding.
\<close>

definition round_to_double :: "rat \<Rightarrow> double" where
  "round_to_double x =
     (if x = 0 then Finite 0
      else
        let a = \<bar>x\<bar>;
            e = max (ilog2 a) (- 1022) - 52;
            n = round_half_even (a / 2 powi e);
            r = of_int n * 2 powi e
        in if 2 ^ 1024 \<le> r then (if 0 < x then PosInf else NegInf)
           else Finite (if 0 < x then r else - r))"

fun fneg :: "double \<Rightarrow> double" where
  "fneg (Finite x) = Finite (- x)"
| "fneg PosInf = NegInf"
| "fneg NegInf = PosInf"
| "fneg NaN = NaN"

text \<open>\<open>x + y\<close> on floats.\<close>

fun fadd :: "double \<Rightarrow> double \<Rightarrow> double" where
  "fadd (Finite x) (Finite y) = round_to_double (x + y)"
| "fadd NaN y = NaN"
| "fadd x NaN = NaN"
| "fadd PosInf NegInf = NaN"
| "fadd NegInf PosInf = NaN"
| "fadd PosInf y = PosInf"
| "fadd x PosInf = PosInf"
| "fadd NegInf y = NegInf"
| "fadd x NegInf = NegInf"

text \<open>\<open>x - y\<close> on floats.\<close>

definition fsub :: "double \<Rightarrow> double \<Rightarrow> double" where
  "fsub x y = fadd x (fneg y)"

text \<open>\<open>x / 2\<close> on a float.\<close>

fun fdiv2 :: "double \<Rightarrow> double" where
  "fdiv2 (Finite x) = round_to_double (x / 2)"
| "fdiv2 PosInf = PosInf"
| "fdiv2 NegInf = NegInf"
| "fdiv2 NaN = NaN"

text \<open>\<open>x < y\<close> on floats: false when either side is a NaN.\<close>

fun flt :: "double \<Rightarrow> double \<Rightarrow> bool" where
  "flt (Finite x) (Finite y) = (x < y)"
| "flt NaN y = False"
| "flt x NaN = False"
| "flt x NegInf = False"
| "flt PosInf y = False"
| "flt NegInf y = True"
| "flt x PosInf = True"

subsection \<open>Request values\<close>

text \<open>
  The value of \<open>data.get('weight')\<close>, as Python's JSON parser gives it: an absent key
  and \<open>null\<close> both give \<open>None\<close>; a literal without fraction or exponent is an
  \<open>int\<close> of any size; a literal with one is the float nearest to its value
  \<open>JReal x\<close>; the parser also takes \<open>NaN\<close>, \<open>Infinity\<close> and \<open>-Infinity\<close>.
\<close>

datatype json =
    JNull
  | JBool bool
  | JInt int
  | JReal rat
  | JNaN
  | JInfinity
  | JNegInfinity
  | JStr string
  | JArr "json list"
  | JObj "(string \<times> json) list"

text \<open>Python's truth value, as \<open>not weight\<close> tests it.\<close>

fun truthy :: "json \<Rightarrow> bool" where
  "truthy JNull = False"
| "truthy (JBool b) = b"
| "truthy (JInt n) = (n \<noteq> 0)"
| "truthy (JReal x) = (round_to_double x \<noteq> Finite 0)"
| "truthy JNaN = True"
| "truthy JInfinity = True"
| "truthy JNegInfinity = True"
| "truthy (JStr s) = (s \<noteq> [])"
| "truthy (JArr xs) = (xs \<noteq> [])"
| "truthy (JObj kvs) = (kvs \<noteq> [])"

text \<open>
  The Python number a value is: \<open>bool\<close> is a subclass of \<open>int\<close> (\<open>True\<close> is 1).
  Anything else raises \<open>TypeError\<close> in arithmetic.
\<close>

datatype number = PyInt int | PyFloat double

fun py_number :: "json \<Rightarrow> number option" where
  "py_number (JInt n) = Some (PyInt n)"
| "py_number (JBool b) = Some (PyInt (if b then 1 else 0))"
| "py_number (JReal x) = Some (PyFloat (round_to_double x))"
| "py_number JNaN = Some (PyFloat NaN)"
| "py_number JInfinity = Some (PyFloat PosInf)"
| "py_number JNegInfinity = Some (PyFloat NegInf)"
| "py_number JNull = None"
| "py_number (JStr s) = None"
| "py_number (JArr xs) = None"
| "py_number (JObj kvs) = None"

text \<open>
  \<open>float(v)\<close>, which is also what \<open>x + v\<close> makes of \<open>v\<close> for a float \<open>x\<close> and what
  the \<open>Float\<close> column makes of a value it stores: an \<open>int\<close> is rounded, and one
  too large for a double raises \<open>OverflowError\<close>.
\<close>

fun to_float :: "number \<Rightarrow> double option" where
  "to_float (PyInt n) =
     (case round_to_double (of_int n) of Finite v \<Rightarrow> Some (Finite v) | _ \<Rightarrow> None)"
| "to_float (PyFloat d) = Some d"

definition as_float :: "json \<Rightarrow> double option" where
  "as_float v = (case py_number v of None \<Rightarrow> None | Some n \<Rightarrow> to_float n)"

text \<open>
  \<open>weight / 2\<close>: true division, correctly rounded; for an \<open>int\<close> whose half is too
  large for a double it raises \<open>OverflowError\<close>.
\<close>

fun halve :: "number \<Rightarrow> double option" where
  "halve (PyInt n) =
     (case round_to_double (of_int n / 2) of Finite v \<Rightarrow> Some (Finite v) | _ \<Rightarrow> None)"
| "halve (PyFloat d) = Some (fdiv2 d)"

definition half_of :: "json \<Rightarrow> double option" where
  "half_of v = (case py_number v of None \<Rightarrow> None | Some n \<Rightarrow> halve n)"

subsection \<open>Database model\<close>

text \<open>
  \<open>created_at\<close> is a naive UTC datetime, here the number of microseconds since the
  epoch. \<open>id\<close> is the integer primary key. The weight and the amount of a movement
  are \<open>NOT NULL\<close>; SQLite stores a NaN as \<open>NULL\<close>, so they are never a NaN.
\<close>

record stock_record =
  sr_id :: nat
  sr_type :: string
  sr_weight :: double
  sr_amount :: double
  sr_created_at :: int
  sr_unit :: string

text \<open>
  The columns of the summary row may hold \<open>NULL\<close>, which Python reads as \<open>None\<close>.
\<close>

record stock_summary =
  current_stock :: "double option"
  total_sales :: "double option"
  total_cost :: "double option"

record db =
  records :: "stock_record list"
  summary :: stock_summary

text \<open>What a commit leaves in a column of the summary row: \<open>NULL\<close> for a NaN.\<close>

definition store :: "double \<Rightarrow> double option" where
  "store d = (if d = NaN then None else Some d)"

text \<open>The database after first boot: no movement, one zero summary row.\<close>

definition init_db :: db where
  "init_db = \<lparr>records = [],
     summary = \<lparr>current_stock = Some (Finite 0), total_sales = Some (Finite 0),
                total_cost = Some (Finite 0)\<rparr>\<rparr>"

text \<open>
  The key SQLite gives a new row of an \<open>INTEGER PRIMARY KEY\<close> table: one more than
  the largest key in the table, 1 in an empty table.
\<close>

definition next_id :: "stock_record list \<Rightarrow> nat" where
  "next_id rs = fold max (map sr_id rs) 0 + 1"

text \<open>
  The largest integer SQLite takes as a parameter; a larger \<open>record_id\<close> raises
  \<open>OverflowError\<close> in \<open>query.get\<close>.
\<close>

definition sqlite_max_int :: nat where
  "sqlite_max_int = 2 ^ 63 - 1"

subsection \<open>Responses\<close>

text \<open>\<open>ServerError\<close> stands for every uncaught exception.\<close>

datatype error =
    MissingParams
  | InsufficientStock
  | NotFound
  | ServerError

fun http_status :: "error \<Rightarrow> nat" where
  "http_status MissingParams = 400"
| "http_status InsufficientStock = 400"
| "http_status NotFound = 404"
| "http_status ServerError = 500"

record summary_view =
  sv_current_stock :: "double option"
  sv_total_sales :: double
  sv_total_cost :: double
  sv_profit :: double

text \<open>
  The labels of a listed movement stand for the two display strings the source
  chooses between (inbound or outbound, kilogram or jin).
\<close>

datatype type_label = LabelInbound | LabelOutbound

datatype unit_label = LabelKg | LabelJin

record record_row =
  row_id :: nat
  row_type :: type_label
  row_weight :: double
  row_unit :: unit_label
  row_amount :: double
  row_created_at :: int

datatype response =
    Success
  | Failure error
  | SummaryBody summary_view
  | Rows "record_row list"

subsection \<open>Handlers that write\<close>

text \<open>
  \<open>stock_in\<close>, POST /api/stock/in. \<open>now\<close> is \<open>datetime.utcnow()\<close>. The movement is
  flushed with \<open>float(weight)\<close> and \<open>float(amount)\<close>; a NaN violates \<open>NOT NULL\<close>.
\<close>

definition stock_in :: "json \<Rightarrow> json \<Rightarrow> int \<Rightarrow> db \<Rightarrow> response \<times> db" where
  "stock_in weight amount now s =
     (if \<not> truthy weight \<or> \<not> truthy amount then (Failure MissingParams, s)
      else case as_float weight of
        None \<Rightarrow> (Failure ServerError, s)
      | Some w \<Rightarrow>
         (case as_float amount of
            None \<Rightarrow> (Failure ServerError, s)
          | Some a \<Rightarrow>
             if w = NaN \<or> a = NaN then (Failure ServerError, s)
             else case current_stock (summary s) of
               None \<Rightarrow> (Failure ServerError, s)
             | Some cs \<Rightarrow>
                (case total_cost (summary s) of
                   None \<Rightarrow> (Failure ServerError, s)
                 | Some tc \<Rightarrow>
                    (Success,
                     s\<lparr>records := records s @
                          [\<lparr>sr_id = next_id (records s), sr_type = ''in'', sr_weight = w,
                            sr_amount = a, sr_created_at = now, sr_unit = ''kg''\<rparr>],
                       summary := (summary s)
                          \<lparr>current_stock := store (fadd cs w),
                           total_cost := store (fadd tc a)\<rparr>\<rparr>))))"

text \<open>\<open>stock_out\<close>, POST /api/stock/out. The weight is in jin, half a kilogram.\<close>

definition stock_out :: "json \<Rightarrow> json \<Rightarrow> int \<Rightarrow> db \<Rightarrow> response \<times> db" where
  "stock_out weight amount now s =
     (if \<not> truthy weight \<or> \<not> truthy amount then (Failure MissingParams, s)
      else case half_of weight of
        None \<Rightarrow> (Failure ServerError, s)
      | Some weight_kg \<Rightarrow>
         (case current_stock (summary s) of
            None \<Rightarrow> (Failure ServerError, s)
          | Some cs \<Rightarrow>
             if flt cs weight_kg then (Failure InsufficientStock, s)
             else case as_float weight of
               None \<Rightarrow> (Failure ServerError, s)
             | Some w \<Rightarrow>
                (case as_float amount of
                   None \<Rightarrow> (Failure ServerError, s)
                 | Some a \<Rightarrow>
                    if w = NaN \<or> a = NaN then (Failure ServerError, s)
                    else case total_sales (summary s) of
                      None \<Rightarrow> (Failure ServerError, s)
                    | Some ts \<Rightarrow>
                       (Success,
                        s\<lparr>records := records s @
                             [\<lparr>sr_id = next_id (records s), sr_type = ''out'',
                               sr_weight = w, sr_amount = a, sr_created_at = now,
                               sr_unit = ''jin''\<rparr>],
                          summary := (summary s)
                             \<lparr>current_stock := store (fsub cs weight_kg),
                              total_sales := store (fadd ts a)\<rparr>\<rparr>))))"

text \<open>\<open>delete_record\<close>, DELETE /api/stock/records/<id>.\<close>

definition delete_record :: "nat \<Rightarrow> db \<Rightarrow> response \<times> db" where
  "delete_record record_id s =
     (if sqlite_max_int < record_id then (Failure ServerError, s)
      else case find (\<lambda>r. sr_id r = record_id) (records s) of
        None \<Rightarrow> (Failure NotFound, s)
      | Some rcd \<Rightarrow>
         (case current_stock (summary s) of
            None \<Rightarrow> (Failure ServerError, s)
          | Some cs \<Rightarrow>
             if sr_type rcd = ''in'' then
               (case total_cost (summary s) of
                  None \<Rightarrow> (Failure ServerError, s)
                | Some tc \<Rightarrow>
                   (Success,
                    s\<lparr>records := filter (\<lambda>r. sr_id r \<noteq> record_id) (records s),
                      summary := (summary s)
                         \<lparr>current_stock := store (fsub cs (sr_weight rcd)),
                          total_cost := store (fsub tc (sr_amount rcd))\<rparr>\<rparr>))
             else
               (let weight_kg = fdiv2 (sr_weight rcd) in
                case total_sales (summary s) of
                  None \<Rightarrow> (Failure ServerError, s)
                | Some ts \<Rightarrow>
                   (Success,
                    s\<lparr>records := filter (\<lambda>r. sr_id r \<noteq> record_id) (records s),
                      summary := (summary s)
                         \<lparr>current_stock := store (fadd cs weight_kg),
                          total_sales := store (fsub ts (sr_amount rcd))\<rparr>\<rparr>))))"

text \<open>
  \<open>update_record\<close>, PUT /api/stock/records/<id>. The movement is flushed at the
  commit with \<open>float(weight)\<close> and \<open>float(amount)\<close>.
\<close>

definition update_record :: "nat \<Rightarrow> json \<Rightarrow> json \<Rightarrow> db \<Rightarrow> response \<times> db" where
  "update_record record_id weight amount s =
     (if sqlite_max_int < record_id then (Failure ServerError, s)
      else case find (\<lambda>r. sr_id r = record_id) (records s) of
        None \<Rightarrow> (Failure NotFound, s)
      | Some rcd \<Rightarrow>
         (if \<not> truthy weight \<or> \<not> truthy amount then (Failure MissingParams, s)
          else case as_float weight of
            None \<Rightarrow> (Failure ServerError, s)
          | Some w \<Rightarrow>
             (case as_float amount of
                None \<Rightarrow> (Failure ServerError, s)
              | Some a \<Rightarrow>
                 if w = NaN \<or> a = NaN then (Failure ServerError, s)
                 else case current_stock (summary s) of
                   None \<Rightarrow> (Failure ServerError, s)
                 | Some cs \<Rightarrow>
                    if sr_type rcd = ''in'' then
                      (case total_cost (summary s) of
                         None \<Rightarrow> (Failure ServerError, s)
                       | Some tc \<Rightarrow>
                          (Success,
                           s\<lparr>records :=
                                map (\<lambda>r. if sr_id r = record_id
                                          then r\<lparr>sr_weight := w, sr_amount := a\<rparr> else r)
                                    (records s),
                             summary := (summary s)
                                \<lparr>current_stock := store (fadd (fsub cs (sr_weight rcd)) w),
                                 total_cost :=
                                   store (fadd (fsub tc (sr_amount rcd)) a)\<rparr>\<rparr>))
                    else
                      (let old_weight_kg = fdiv2 (sr_weight rcd) in
                       case half_of weight of
                         None \<Rightarrow> (Failure ServerError, s)
                       | Some new_weight_kg \<Rightarrow>
                          (case total_sales (summary s) of
                             None \<Rightarrow> (Failure ServerError, s)
                           | Some ts \<Rightarrow>
                              (Success,
                               s\<lparr>records :=
                                    map (\<lambda>r. if sr_id r = record_id
                                              then r\<lparr>sr_weight := w, sr_amount := a\<rparr>
                                              else r)
                                        (records s),
                                 summary := (summary s)
                                    \<lparr>current_stock :=
                                       store (fsub (fadd cs old_weight_kg) new_weight_kg),
                                     total_sales :=
                                       store (fadd (fsub ts (sr_amount rcd)) a)\<rparr>\<rparr>))))))"

subsection \<open>Handlers that read\<close>

text \<open>
  \<open>get_summary\<close>, GET /api/stock/summary. The profit is computed here; a total
  that is \<open>NULL\<close> raises \<open>TypeError\<close>.
\<close>

definition get_summary :: "db \<Rightarrow> response \<times> db" where
  "get_summary s =
     (case total_sales (summary s) of
        None \<Rightarrow> (Failure ServerError, s)
      | Some ts \<Rightarrow>
         (case total_cost (summary s) of
            None \<Rightarrow> (Failure ServerError, s)
          | Some tc \<Rightarrow>
             (let profit = fsub ts tc
              in (SummaryBody \<lparr>sv_current_stock = current_stock (summary s),
                               sv_total_sales = ts,
                               sv_total_cost = tc,
                               sv_profit = profit\<rparr>, s))))"

text \<open>
  A date parameter of GET /api/stock/records: absent or empty (falsy, no filter),
  a string \<open>strptime\<close> rejects (\<open>ValueError\<close>), or a calendar date, here its day
  number since the epoch.
\<close>

datatype date_param = NoDate | BadDate | Date int

definition usec_per_day :: int where
  "usec_per_day = 86400000000"

text \<open>The days 0001-01-01 and 9999-12-31, the first and the last of \<open>datetime\<close>.\<close>

definition min_day :: int where
  "min_day = - 719162"

definition max_day :: int where
  "max_day = 2932896"

text \<open>
  \<open>datetime.strptime(d, '%Y-%m-%d')\<close>: midnight of the day, naive; a day outside
  the years 1 to 9999 is not a date it returns.
\<close>

definition strptime :: "int \<Rightarrow> int option" where
  "strptime d = (if min_day \<le> d \<and> d \<le> max_day then Some (d * usec_per_day) else None)"

text \<open>
  The offset \<open>pytz.timezone('Asia/Shanghai')\<close> has when it is attached with
  \<open>replace(tzinfo=...)\<close>: the zone's first entry, local mean time, +8:06.
\<close>

definition shanghai_tzinfo_offset :: int where
  "shanghai_tzinfo_offset = (8 * 60 + 6) * 60 * 1000000"

text \<open>The offset of China Standard Time, +8:00.\<close>

definition shanghai_offset :: int where
  "shanghai_offset = 8 * 60 * 60 * 1000000"

text \<open>
  \<open>.replace(tzinfo=pytz.timezone('Asia/Shanghai')).astimezone(pytz.utc)\<close>: the
  subtraction of the offset raises \<open>OverflowError\<close> below the first datetime.
\<close>

definition to_utc :: "int \<Rightarrow> int option" where
  "to_utc t =
     (if t - shanghai_tzinfo_offset < min_day * usec_per_day then None
      else Some (t - shanghai_tzinfo_offset))"

text \<open>\<open>.replace(hour=23, minute=59, second=59, microsecond=999999)\<close>: same day.\<close>

definition replace_end_of_day :: "int \<Rightarrow> int" where
  "replace_end_of_day t =
     (t div usec_per_day) * usec_per_day
       + ((23 * 60 + 59) * 60 + 59) * 1000000 + 999999"

text \<open>
  The two bounds of the filter: \<open>None\<close> when the conversion raises, \<open>Some None\<close>
  when the parameter is falsy and there is no bound.
\<close>

fun start_bound :: "date_param \<Rightarrow> int option option" where
  "start_bound NoDate = Some None"
| "start_bound BadDate = None"
| "start_bound (Date d) =
     (case strptime d of
        None \<Rightarrow> None
      | Some t \<Rightarrow> (case to_utc t of None \<Rightarrow> None | Some start_utc \<Rightarrow> Some (Some start_utc)))"

fun end_bound :: "date_param \<Rightarrow> int option option" where
  "end_bound NoDate = Some None"
| "end_bound BadDate = None"
| "end_bound (Date d) =
     (case strptime d of
        None \<Rightarrow> None
      | Some t \<Rightarrow>
         (case to_utc t of
            None \<Rightarrow> None
          | Some end_utc \<Rightarrow> Some (Some (replace_end_of_day end_utc))))"

text \<open>
  \<open>.replace(tzinfo=pytz.utc).astimezone(local_tz)\<close>. \<open>tz\<close> is the time zone table of
  \<open>pytz\<close> for Asia/Shanghai: the offset from UTC in force at a UTC instant. Adding
  it raises \<open>OverflowError\<close> outside the range of \<open>datetime\<close>.
\<close>

definition astimezone :: "(int \<Rightarrow> int) \<Rightarrow> int \<Rightarrow> int option" where
  "astimezone tz t =
     (let local_time = t + tz t
      in if local_time < min_day * usec_per_day \<or> (max_day + 1) * usec_per_day \<le> local_time
         then None else Some local_time)"

text \<open>A listed movement. The time is shown to the second.\<close>

definition render :: "(int \<Rightarrow> int) \<Rightarrow> stock_record \<Rightarrow> record_row option" where
  "render tz r =
     (case astimezone tz (sr_created_at r) of
        None \<Rightarrow> None
      | Some local_time \<Rightarrow>
          Some \<lparr>row_id = sr_id r,
                row_type = (if sr_type r = ''in'' then LabelInbound else LabelOutbound),
                row_weight = sr_weight r,
                row_unit = (if sr_unit r = ''kg'' then LabelKg else LabelJin),
                row_amount = sr_amount r,
                row_created_at = local_time div 1000000\<rparr>)"

text \<open>
  \<open>get_records\<close>, GET /api/stock/records. The order among movements of the same
  instant is the database's choice; here it is that of a stable sort. The listing
  fails when a movement cannot be rendered.
\<close>

definition get_records ::
  "(int \<Rightarrow> int) \<Rightarrow> date_param \<Rightarrow> date_param \<Rightarrow> db \<Rightarrow> response \<times> db" where
  "get_records tz start_time end_time s =
     (case start_bound start_time of
        None \<Rightarrow> (Failure ServerError, s)
      | Some lo \<Rightarrow>
         (case end_bound end_time of
            None \<Rightarrow> (Failure ServerError, s)
          | Some hi \<Rightarrow>
             (let q1 = (case lo of
                          None \<Rightarrow> records s
                        | Some start_utc \<Rightarrow>
                            filter (\<lambda>r. start_utc \<le> sr_created_at r) (records s));
                  q2 = (case hi of
                          None \<Rightarrow> q1
                        | Some end_utc \<Rightarrow> filter (\<lambda>r. sr_created_at r \<le> end_utc) q1);
                  rs = sort_key (\<lambda>r. - sr_created_at r) q2
              in case those (map (render tz) rs) of
                   None \<Rightarrow> (Failure ServerError, s)
                 | Some result \<Rightarrow> (Rows result, s))))"

subsection \<open>Sequences of requests\<close>

datatype request =
    StockIn json json int
  | StockOut json json int
  | GetSummary
  | GetRecords date_param date_param
  | DeleteRecord nat
  | UpdateRecord nat json json

fun handle :: "(int \<Rightarrow> int) \<Rightarrow> request \<Rightarrow> db \<Rightarrow> response \<times> db" where
  "handle tz (StockIn weight amount now) s = stock_in weight amount now s"
| "handle tz (StockOut weight amount now) s = stock_out weight amount now s"
| "handle tz GetSummary s = get_summary s"
| "handle tz (GetRecords start_time end_time) s = get_records tz start_time end_time s"
| "handle tz (DeleteRecord record_id) s = delete_record record_id s"
| "handle tz (UpdateRecord record_id weight amount) s =
     update_record record_id weight amount s"

fun run :: "(int \<Rightarrow> int) \<Rightarrow> request list \<Rightarrow> db \<Rightarrow> db" where
  "run tz [] s = s"
| "run tz (q # qs) s = run tz qs (snd (handle tz q s))"

subsection \<open>What the ledger says the totals are\<close>

text \<open>The value of a finite double; sums of values are exact sums of rationals.\<close>

fun fin_value :: "double \<Rightarrow> rat" where
  "fin_value (Finite x) = x"
| "fin_value d = 0"

fun is_finite :: "double \<Rightarrow> bool" where
  "is_finite (Finite x) = True"
| "is_finite d = False"

text \<open>
  The contribution of a movement to the stock, in kilograms: an inbound movement
  adds its weight, an outbound one takes half its weight (it is in jin).
\<close>

definition contribution :: "stock_record \<Rightarrow> rat" where
  "contribution r =
     (if sr_type r = ''in'' then fin_value (sr_weight r)
      else if sr_type r = ''out'' then - (fin_value (sr_weight r) / 2)
      else 0)"

definition ledger_stock :: "stock_record list \<Rightarrow> rat" where
  "ledger_stock rs = sum_list (map contribution rs)"

definition ledger_cost :: "stock_record list \<Rightarrow> rat" where
  "ledger_cost rs =
     sum_list (map (\<lambda>r. fin_value (sr_amount r)) (filter (\<lambda>r. sr_type r = ''in'') rs))"

definition ledger_sales :: "stock_record list \<Rightarrow> rat" where
  "ledger_sales rs =
     sum_list (map (\<lambda>r. fin_value (sr_amount r)) (filter (\<lambda>r. sr_type r = ''out'') rs))"

definition finite_ledger :: "stock_record list \<Rightarrow> bool" where
  "finite_ledger rs = list_all (\<lambda>r. is_finite (sr_weight r) \<and> is_finite (sr_amount r)) rs"

text \<open>
  The summary agrees with the ledger: every weight and amount is finite, and each
  total is the exact sum the ledger gives.
\<close>

definition consistent :: "db \<Rightarrow> bool" where
  "consistent s \<longleftrightarrow>
     finite_ledger (records s) \<and>
     current_stock (summary s) = Some (Finite (ledger_stock (records s))) \<and>
     total_cost (summary s) = Some (Finite (ledger_cost (records s))) \<and>
     total_sales (summary s) = Some (Finite (ledger_sales (records s)))"

text \<open>Requests whose weights and amounts are JSON integers of magnitude at most \<open>B\<close>.\<close>

fun whole :: "nat \<Rightarrow> json \<Rightarrow> bool" where
  "whole B (JInt n) = (\<bar>n\<bar> \<le> int B)"
| "whole B v = False"

fun whole_request :: "nat \<Rightarrow> request \<Rightarrow> bool" where
  "whole_request B (StockIn weight amount now) = (whole B weight \<and> whole B amount)"
| "whole_request B (StockOut weight amount now) = (whole B weight \<and> whole B amount)"
| "whole_request B (UpdateRecord record_id weight amount) = (whole B weight \<and> whole B amount)"
| "whole_request B q = True"

text \<open>
  What every database reached by such requests satisfies besides: keys are unique,
  every movement is of type \<open>in\<close> or \<open>out\<close>, and every stored weight and amount is
  a whole number of magnitude at most \<open>B\<close>.
\<close>

definition typed :: "stock_record list \<Rightarrow> bool" where
  "typed rs \<longleftrightarrow> list_all (\<lambda>r. sr_type r = ''in'' \<or> sr_type r = ''out'') rs"

fun whole_double :: "nat \<Rightarrow> double \<Rightarrow> bool" where
  "whole_double B (Finite x) = (x = of_int \<lfloor>x\<rfloor> \<and> \<bar>x\<bar> \<le> of_nat B)"
| "whole_double B d = False"

definition whole_ledger :: "nat \<Rightarrow> stock_record list \<Rightarrow> bool" where
  "whole_ledger B rs =
     list_all (\<lambda>r. whole_double B (sr_weight r) \<and> whole_double B (sr_amount r)) rs"

definition ledger_inv :: "nat \<Rightarrow> db \<Rightarrow> bool" where
  "ledger_inv B s \<longleftrightarrow>
     consistent s \<and> distinct (map sr_id (records s)) \<and> typed (records s) \<and>
     whole_ledger B (records s)"

subsection \<open>Example databases\<close>

text \<open>The offset in force at every instant since 1991: +8:00.\<close>

definition cst :: "int \<Rightarrow> int" where
  "cst t = shanghai_offset"

text \<open>One inbound movement of 3 kg bought for 12; the stock is 3 kg.\<close>

definition inbound_3_12 :: db where
  "inbound_3_12 =
     \<lparr>records = [\<lparr>sr_id = 1, sr_type = ''in'', sr_weight = Finite 3, sr_amount = Finite 12,
                   sr_created_at = 0, sr_unit = ''kg''\<rparr>],
      summary = \<lparr>current_stock = Some (Finite 3), total_sales = Some (Finite 0),
                 total_cost = Some (Finite 12)\<rparr>\<rparr>"



text \<open>
  A database whose stock is \<open>NULL\<close>: 5 kg were bought for 20, then a movement of
  infinite weight was entered and deleted.
\<close>

definition null_stock :: db where
  "null_stock =
     \<lparr>records = [\<lparr>sr_id = 1, sr_type = ''in'', sr_weight = Finite 5, sr_amount = Finite 20,
                   sr_created_at = 0, sr_unit = ''kg''\<rparr>],
      summary = \<lparr>current_stock = None, total_sales = Some (Finite 0),
                 total_cost = Some (Finite 20)\<rparr>\<rparr>"

text \<open>
  \<open>10 ^ 16\<close> kg were bought for 1, then 2 jin were sold for 1: the stock, rounded,
  is still \<open>10 ^ 16\<close> kg.
\<close>

definition large_stock :: db where
  "large_stock =
     \<lparr>records = [\<lparr>sr_id = 1, sr_type = ''in'', sr_weight = Finite (10 ^ 16),
                   sr_amount = Finite 1, sr_created_at = 0, sr_unit = ''kg''\<rparr>,
                 \<lparr>sr_id = 2, sr_type = ''out'', sr_weight = Finite 2, sr_amount = Finite 1,
                   sr_created_at = 1, sr_unit = ''jin''\<rparr>],
      summary = \<lparr>current_stock = Some (Finite (10 ^ 16)), total_sales = Some (Finite 1),
                 total_cost = Some (Finite 1)\<rparr>\<rparr>"

section \<open>Properties\<close>

subsection \<open>Rounding\<close>

lemma powi_nonneg: "0 \<le> k \<Longrightarrow> (2::rat) powi k = 2 ^ nat k"
  by (simp add: power_int_def)

lemma powi_neg: "0 \<le> k \<Longrightarrow> (2::rat) powi (- k) = 1 / 2 ^ nat k"
  by (simp add: power_int_minus_divide powi_nonneg)

lemma ilog2_lower_ge1:
  assumes "1 \<le> a"
  shows "2 powi (ilog2 a) \<le> a" and "a < 2 powi (ilog2 a + 1)"
proof -
  let ?n = "\<lfloor>a\<rfloor>"
  from assms have n: "0 < ?n" by simp
  have b1: "1 \<le> bitlen ?n" using n by (simp add: bitlen_ge_iff_power)
  have il: "ilog2 a = bitlen ?n - 1" using assms by (simp add: ilog2_def)
  from bitlen_bounds [OF n] have lo: "2 ^ nat (bitlen ?n - 1) \<le> ?n"
    and hi: "?n < 2 ^ nat (bitlen ?n)" by simp_all
  have "(2::rat) powi (ilog2 a) = 2 ^ nat (bitlen ?n - 1)"
    unfolding il using b1 by (simp add: powi_nonneg)
  also have "\<dots> = of_int (2 ^ nat (bitlen ?n - 1))" by simp
  also have "\<dots> \<le> of_int ?n" using lo by (simp only: of_int_le_iff)
  also have "\<dots> \<le> a" by simp
  finally show "2 powi (ilog2 a) \<le> a" .
  from hi have "?n + 1 \<le> 2 ^ nat (bitlen ?n)" by simp
  then have "of_int (?n + 1) \<le> (of_int (2 ^ nat (bitlen ?n)) :: rat)"
    by (simp only: of_int_le_iff)
  then have "of_int ?n + 1 \<le> (2::rat) ^ nat (bitlen ?n)" by simp
  moreover have "a < of_int ?n + 1" by linarith
  ultimately have "a < 2 ^ nat (bitlen ?n)" by linarith
  also have "\<dots> = 2 powi (ilog2 a + 1)"
    unfolding il using b1 by (simp add: powi_nonneg)
  finally show "a < 2 powi (ilog2 a + 1)" .
qed

lemma ilog2_lower_lt1:
  assumes "0 < a" and "a < 1"
  shows "2 powi (ilog2 a) \<le> a" and "a < 2 powi (ilog2 a + 1)"
proof -
  let ?y = "1 / a"
  let ?m = "\<lceil>?y\<rceil> - 1"
  from assms have y1: "1 < ?y" by (simp add: field_simps)
  then have c2: "2 \<le> \<lceil>?y\<rceil>" by (simp add: le_ceiling_iff)
  then have m: "0 < ?m" by simp
  let ?b = "bitlen ?m"
  have b1: "1 \<le> ?b" using m by (simp add: bitlen_ge_iff_power)
  have il: "ilog2 a = - ?b" using assms by (simp add: ilog2_def)
  from bitlen_bounds [OF m] have lo: "2 ^ nat (?b - 1) \<le> ?m"
    and hi: "?m < 2 ^ nat ?b" by simp_all
  have ylo: "of_int ?m < ?y" using ceiling_correct [of ?y] by simp
  have yhi: "?y \<le> of_int ?m + 1" using ceiling_correct [of ?y] by simp
  from hi have "?m + 1 \<le> 2 ^ nat ?b" by simp
  then have "of_int (?m + 1) \<le> (of_int (2 ^ nat ?b) :: rat)"
    by (simp only: of_int_le_iff)
  then have "of_int ?m + 1 \<le> (2::rat) ^ nat ?b" by simp
  with yhi have y_le: "?y \<le> 2 ^ nat ?b" by linarith
  have "(2::rat) powi (ilog2 a) = 1 / 2 ^ nat ?b"
    unfolding il using b1 by (simp add: powi_neg)
  also have "\<dots> \<le> a"
    using y_le assms(1) by (simp add: field_simps)
  finally show "2 powi (ilog2 a) \<le> a" .
  have "(of_int (2 ^ nat (?b - 1)) :: rat) \<le> of_int ?m" using lo by (simp only: of_int_le_iff)
  then have "(2::rat) ^ nat (?b - 1) \<le> of_int ?m" by simp
  with ylo have y_gt: "2 ^ nat (?b - 1) < ?y" by linarith
  have "a < 1 / 2 ^ nat (?b - 1)"
    using y_gt assms(1) by (simp add: field_simps)
  also have "\<dots> = 2 powi (- (?b - 1))"
    using b1 powi_neg [of "?b - 1"] by simp
  also have "- (?b - 1) = ilog2 a + 1" unfolding il by simp
  finally show "a < 2 powi (ilog2 a + 1)" .
qed

lemma ilog2_bounds:
  assumes "0 < a"
  shows "2 powi (ilog2 a) \<le> a" and "a < 2 powi (ilog2 a + 1)"
  using assms ilog2_lower_ge1 [of a] ilog2_lower_lt1 [of a]
  by (cases "1 \<le> a"; simp)+

lemma round_half_even_of_int [simp]: "round_half_even (of_int n) = n"
  by (simp add: round_half_even_def)

lemma round_half_even_ge: "of_int k \<le> x \<Longrightarrow> k \<le> round_half_even x"
proof -
  assume "of_int k \<le> x"
  then have "k \<le> \<lfloor>x\<rfloor>" by (simp add: le_floor_iff)
  then show ?thesis by (simp add: round_half_even_def Let_def)
qed

lemma round_half_even_small: "0 \<le> x \<Longrightarrow> x \<le> 1 / 2 \<Longrightarrow> round_half_even x = 0"
proof -
  assume a: "0 \<le> x" "x \<le> 1 / 2"
  then have f: "\<lfloor>x\<rfloor> = 0" by (simp add: floor_eq_iff)
  show ?thesis using a by (simp add: round_half_even_def f)
qed

lemma powi_less_exp: "(2::rat) powi m < 2 powi n \<Longrightarrow> m < n"
proof (rule ccontr)
  assume l: "(2::rat) powi m < 2 powi n" and "\<not> m < n"
  then have "n \<le> m" by simp
  then have "(2::rat) powi n \<le> 2 powi m" by (intro power_int_increasing) simp_all
  with l show False by simp
qed

lemma round_to_double_unfold:
  assumes "x \<noteq> 0" and "e = max (ilog2 \<bar>x\<bar>) (- 1022) - 52"
    and "n = round_half_even (\<bar>x\<bar> / 2 powi e)" and "r = of_int n * 2 powi e"
  shows "round_to_double x =
     (if 2 ^ 1024 \<le> r then (if 0 < x then PosInf else NegInf)
      else Finite (if 0 < x then r else - r))"
  unfolding assms(2-4) round_to_double_def Let_def using assms(1) by (simp only: if_False)

lemma round_exact:
  assumes x: "x = of_int m * 2 powi t" and m: "\<bar>m\<bar> < 2 ^ 53"
    and t: "- 1074 \<le> t" "t \<le> 971"
  shows "round_to_double x = Finite x"
proof (cases "m = 0")
  case True
  then show ?thesis by (simp add: x round_to_double_def)
next
  case False
  define a where "a = \<bar>x\<bar>"
  have a: "a = of_int \<bar>m\<bar> * 2 powi t" by (simp add: a_def x abs_mult)
  have a0: "0 < a" using False by (simp add: a)
  have x0: "x \<noteq> 0" using a0 by (auto simp add: a_def)
  define e where "e = max (ilog2 a) (- 1022) - 52"
  have m': "(of_int \<bar>m\<bar> :: rat) < 2 ^ 53"
  proof -
    from m have "(of_int \<bar>m\<bar> :: rat) < of_int (2 ^ 53)" by (simp only: of_int_less_iff)
    then show ?thesis by simp
  qed
  have "2 powi (ilog2 a) \<le> a" using a0 by (rule ilog2_bounds)
  also have "a < 2 ^ 53 * 2 powi t" unfolding a using m' by simp
  also have "\<dots> = 2 powi (53 + t)" by (simp add: power_int_add)
  finally have "ilog2 a < 53 + t" by (rule powi_less_exp)
  then have et: "e \<le> t" using t by (simp add: e_def)
  define d where "d = nat (t - e)"
  have td: "t = e + int d" using et by (simp add: d_def)
  have q: "a / 2 powi e = of_int (\<bar>m\<bar> * 2 ^ d)"
    by (simp add: a td power_int_add)
  have n: "round_half_even (a / 2 powi e) = \<bar>m\<bar> * 2 ^ d"
    unfolding q by (rule round_half_even_of_int)
  have r: "of_int (\<bar>m\<bar> * 2 ^ d) * 2 powi e = a"
    by (simp add: a td power_int_add)
  have "a < 2 ^ 53 * 2 powi t" unfolding a using m' by simp
  also have "\<dots> \<le> 2 ^ 53 * 2 powi 971"
    using t by (intro mult_left_mono power_int_increasing) simp_all
  also have "\<dots> = 2 ^ 1024" by simp
  finally have small: "\<not> 2 ^ 1024 \<le> a" by simp
  have e': "e = max (ilog2 \<bar>x\<bar>) (- 1022) - 52" by (simp only: e_def a_def)
  have n': "\<bar>m\<bar> * 2 ^ d = round_half_even (\<bar>x\<bar> / 2 powi e)"
    using n by (simp only: a_def)
  have r': "a = of_int (\<bar>m\<bar> * 2 ^ d) * 2 powi e" using r by (rule sym)
  have "round_to_double x =
     (if 2 ^ 1024 \<le> a then (if 0 < x then PosInf else NegInf)
      else Finite (if 0 < x then a else - a))"
    using x0 e' n' r' by (rule round_to_double_unfold)
  also have "\<dots> = Finite (if 0 < x then a else - a)"
    using small by (simp only: if_False)
  also have "(if 0 < x then a else - a) = x" by (simp add: a_def)
  finally show ?thesis .
qed

lemma round_exact_int: "\<bar>m\<bar> < 2 ^ 53 \<Longrightarrow> round_to_double (of_int m) = Finite (of_int m)"
  using round_exact [of "of_int m" m 0] by simp

lemma round_exact_half:
  "\<bar>m\<bar> < 2 ^ 53 \<Longrightarrow> round_to_double (of_int m / 2) = Finite (of_int m / 2)"
  using round_exact [of "of_int m / 2" m "- 1"] by simp

lemma round_overflow:
  assumes "2 ^ 1024 \<le> x"
  shows "round_to_double x = PosInf"
proof -
  have x0: "0 < x" using assms by (rule less_le_trans [rotated]) simp
  define L where "L = ilog2 x"
  have "(2::rat) powi 1024 \<le> x" using assms by simp
  also have "x < 2 powi (L + 1)" unfolding L_def using x0 by (rule ilog2_bounds)
  finally have L: "1024 \<le> L" using powi_less_exp [of 1024 "L + 1"] by simp
  define e where "e = L - 52"
  have e: "max (ilog2 x) (- 1022) - 52 = e" using L by (simp add: e_def L_def)
  have le: "L = e + 52" by (simp add: e_def)
  have "2 powi L \<le> x" unfolding L_def using x0 by (rule ilog2_bounds)
  then have "2 powi e * 2 ^ 52 \<le> x" by (simp add: le power_int_add)
  then have "of_int (2 ^ 52) \<le> x / 2 powi e" by (simp add: field_simps)
  then have n: "2 ^ 52 \<le> round_half_even (x / 2 powi e)" by (rule round_half_even_ge)
  then have n': "(of_int (2 ^ 52) :: rat) \<le> of_int (round_half_even (x / 2 powi e))"
    by (simp only: of_int_le_iff)
  have "(2::rat) ^ 1024 = 2 powi 1024" by simp
  also have "\<dots> \<le> 2 powi L" using L by (intro power_int_increasing) simp_all
  also have "\<dots> = of_int (2 ^ 52) * 2 powi e" by (simp add: le power_int_add)
  also have "\<dots> \<le> of_int (round_half_even (x / 2 powi e)) * 2 powi e"
    using n' by (intro mult_right_mono) simp_all
  finally have big: "(2::rat) ^ 1024 \<le> of_int (round_half_even (x / 2 powi e)) * 2 powi e" .
  have ax: "\<bar>x\<bar> = x" using x0 by simp
  have x0': "x \<noteq> 0" using x0 by simp
  have e': "e = max (ilog2 \<bar>x\<bar>) (- 1022) - 52" using e by (simp only: ax)
  define n where "n = round_half_even (\<bar>x\<bar> / 2 powi e)"
  define r where "r = rat_of_int n * 2 powi e"
  have big': "2 ^ 1024 \<le> r" using big by (simp only: r_def n_def ax)
  have "round_to_double x =
     (if 2 ^ 1024 \<le> r then (if 0 < x then PosInf else NegInf)
      else Finite (if 0 < x then r else - r))"
    using x0' e' n_def r_def by (rule round_to_double_unfold)
  also have "\<dots> = PosInf" using big' x0 by (simp only: if_True)
  finally show ?thesis .
qed

lemma round_tiny:
  assumes "0 < x" and "x \<le> 1 / 2 ^ 1075"
  shows "round_to_double x = Finite 0"
proof -
  have "2 powi (ilog2 x) \<le> x" using assms(1) by (rule ilog2_bounds)
  also have "x \<le> 2 powi (- 1075)" using assms(2) by (simp add: power_int_minus_divide)
  also have "\<dots> < 2 powi (- 1074)" by (intro power_int_strict_increasing) simp_all
  finally have "ilog2 x < - 1074" by (rule powi_less_exp)
  then have e: "max (ilog2 x) (- 1022) - 52 = - 1074" by simp
  have "x / 2 powi (- 1074) = x * 2 ^ 1074" by (simp add: power_int_minus_divide)
  also have "\<dots> \<le> (1 / 2 ^ 1075) * 2 ^ 1074"
    using assms(2) by (intro mult_right_mono) simp_all
  also have "\<dots> = 1 / 2" by simp
  finally have h: "x / 2 powi (- 1074) \<le> 1 / 2" .
  have p: "0 \<le> x / 2 powi (- 1074)" using assms(1) by simp
  have n: "round_half_even (x / 2 powi (- 1074)) = 0" using p h by (rule round_half_even_small)
  have x0: "x \<noteq> 0" using assms(1) by simp
  have ax: "\<bar>x\<bar> = x" using assms(1) by simp
  have e': "- 1074 = max (ilog2 \<bar>x\<bar>) (- 1022) - 52" using e by (simp only: ax)
  have n': "0 = round_half_even (\<bar>x\<bar> / 2 powi (- 1074))" using n by (simp only: ax)
  have r': "(0::rat) = of_int 0 * 2 powi (- 1074)" by simp
  have "round_to_double x =
     (if 2 ^ 1024 \<le> (0::rat) then (if 0 < x then PosInf else NegInf)
      else Finite (if 0 < x then 0 else - 0))"
    using x0 e' n' r' by (rule round_to_double_unfold)
  also have "\<dots> = Finite 0" by simp
  finally show ?thesis .
qed

lemma round_zero [simp]: "round_to_double 0 = Finite 0"
  by (simp add: round_to_double_def)

lemma round_neg: "round_to_double (- x) = fneg (round_to_double x)"
proof (cases "x = 0")
  case True
  then show ?thesis by simp
next
  case False
  define e where "e = max (ilog2 \<bar>x\<bar>) (- 1022) - 52"
  define n where "n = round_half_even (\<bar>x\<bar> / 2 powi e)"
  define r where "r = rat_of_int n * 2 powi e"
  have e': "e = max (ilog2 \<bar>- x\<bar>) (- 1022) - 52" by (simp add: e_def)
  have n': "n = round_half_even (\<bar>- x\<bar> / 2 powi e)" by (simp add: n_def)
  have nx: "- x \<noteq> 0" using False by simp
  have a: "round_to_double x =
     (if 2 ^ 1024 \<le> r then (if 0 < x then PosInf else NegInf)
      else Finite (if 0 < x then r else - r))"
    using False e_def n_def r_def by (rule round_to_double_unfold)
  have b: "round_to_double (- x) =
     (if 2 ^ 1024 \<le> r then (if 0 < - x then PosInf else NegInf)
      else Finite (if 0 < - x then r else - r))"
    using nx e' n' r_def by (rule round_to_double_unfold)
  have sg: "(0 < x \<and> \<not> 0 < - x) \<or> (\<not> 0 < x \<and> 0 < - x)" using False by auto
  show ?thesis
  proof (cases "(2::rat) ^ 1024 \<le> r")
    case True
    from sg show ?thesis
    proof
      assume "0 < x \<and> \<not> 0 < - x"
      then show ?thesis unfolding a b using True by (simp only: if_True if_False fneg.simps)
    next
      assume "\<not> 0 < x \<and> 0 < - x"
      then show ?thesis unfolding a b using True by (simp only: if_True if_False fneg.simps)
    qed
  next
    case big: False
    from sg show ?thesis
    proof
      assume "0 < x \<and> \<not> 0 < - x"
      then show ?thesis unfolding a b using big by (simp only: if_True if_False fneg.simps)
    next
      assume "\<not> 0 < x \<and> 0 < - x"
      then show ?thesis unfolding a b using big
        by (simp only: if_True if_False fneg.simps minus_minus)
    qed
  qed
qed

lemma round_numeral:
  "(numeral k :: int) < 2 ^ 53 \<Longrightarrow> round_to_double (numeral k) = Finite (numeral k)"
  using round_exact_int [of "numeral k"] by simp

lemma round_one [simp]: "round_to_double 1 = Finite 1"
  using round_exact_int [of 1] by simp

lemma round_numeral_half:
  "(numeral k :: int) < 2 ^ 53 \<Longrightarrow>
   round_to_double (numeral k / 2) = Finite (numeral k / 2)"
  using round_exact_half [of "numeral k"] by simp

lemma round_one_half [simp]: "round_to_double (1 / 2) = Finite (1 / 2)"
  using round_exact_half [of 1] by simp

lemma round_half_grid:
  assumes "2 * x = of_int k" and "\<bar>x\<bar> < 2 ^ 52"
  shows "round_to_double x = Finite x"
proof -
  have x: "x = of_int k / 2" using assms(1) by (simp add: field_simps)
  have "\<bar>rat_of_int k\<bar> < 2 ^ 53" using assms(2) unfolding x by simp
  then have "rat_of_int \<bar>k\<bar> < rat_of_int (2 ^ 53)" by simp
  then have "\<bar>k\<bar> < 2 ^ 53" by (simp only: of_int_less_iff)
  then show ?thesis unfolding x by (rule round_exact_half)
qed

subsection \<open>Keys and lookups\<close>

lemma fold_max_ge_init: "(a::nat) \<le> fold max xs a"
  by (induction xs arbitrary: a) (auto intro: order_trans [OF max.cobounded2])

lemma fold_max_ge_elem: "x \<in> set xs \<Longrightarrow> (x::nat) \<le> fold max xs a"
proof (induction xs arbitrary: a)
  case Nil
  then show ?case by simp
next
  case (Cons y ys)
  show ?case
  proof (cases "x = y")
    case True
    have "y \<le> max y a" by simp
    also have "\<dots> \<le> fold max ys (max y a)" by (rule fold_max_ge_init)
    finally show ?thesis using True by simp
  next
    case False
    with Cons show ?thesis by simp
  qed
qed

lemma next_id_fresh: "next_id rs \<notin> sr_id ` set rs"
proof
  assume "next_id rs \<in> sr_id ` set rs"
  then have "next_id rs \<in> set (map sr_id rs)" by simp
  then have "next_id rs \<le> fold max (map sr_id rs) 0" by (rule fold_max_ge_elem)
  then show False by (simp add: next_id_def)
qed

lemma find_id_sound: "find (\<lambda>x. sr_id x = i) rs = Some r \<Longrightarrow> r \<in> set rs \<and> sr_id r = i"
  by (induction rs) (auto split: if_splits)

lemma find_id_None: "find (\<lambda>x. sr_id x = i) rs = None \<longleftrightarrow> i \<notin> sr_id ` set rs"
  by (induction rs) auto

lemma filter_other_ids: "i \<notin> sr_id ` set rs \<Longrightarrow> filter (\<lambda>x. sr_id x \<noteq> i) rs = rs"
  by (induction rs) auto

lemma map_other_ids:
  "i \<notin> sr_id ` set rs \<Longrightarrow> map (\<lambda>x. if sr_id x = i then g x else x) rs = rs"
  by (induction rs) auto

lemma sum_list_delete_id:
  fixes f :: "stock_record \<Rightarrow> rat"
  assumes "distinct (map sr_id rs)" and "find (\<lambda>x. sr_id x = i) rs = Some r"
  shows "sum_list (map f (filter (\<lambda>x. sr_id x \<noteq> i) rs)) = sum_list (map f rs) - f r"
  using assms
proof (induction rs)
  case Nil
  then show ?case by simp
next
  case (Cons x xs)
  show ?case
  proof (cases "sr_id x = i")
    case True
    with Cons.prems have "r = x" and "i \<notin> sr_id ` set xs" by auto
    then show ?thesis using True by (simp add: filter_other_ids)
  next
    case False
    with Cons show ?thesis by simp
  qed
qed

lemma sum_list_update_id:
  fixes f :: "stock_record \<Rightarrow> rat"
  assumes "distinct (map sr_id rs)" and "find (\<lambda>x. sr_id x = i) rs = Some r"
  shows "sum_list (map f (map (\<lambda>x. if sr_id x = i then g x else x) rs))
           = sum_list (map f rs) - f r + f (g r)"
  using assms
proof (induction rs)
  case Nil
  then show ?case by simp
next
  case (Cons x xs)
  show ?case
  proof (cases "sr_id x = i")
    case True
    with Cons.prems have "r = x" and "i \<notin> sr_id ` set xs" by auto
    then show ?thesis using True by (simp add: map_other_ids)
  next
    case False
    with Cons show ?thesis by simp
  qed
qed

lemma typed_filter: "typed rs \<Longrightarrow> typed (filter P rs)"
  by (induction rs) (auto simp: typed_def)

lemma typed_member: "typed rs \<Longrightarrow> r \<in> set rs \<Longrightarrow> sr_type r = ''in'' \<or> sr_type r = ''out''"
  by (auto simp: typed_def list_all_iff)

lemma typed_update:
  "typed rs \<Longrightarrow> typed (map (\<lambda>x. if sr_id x = i then x\<lparr>sr_weight := w, sr_amount := a\<rparr> else x) rs)"
  by (induction rs) (auto simp: typed_def)

lemma ids_update:
  "map sr_id (map (\<lambda>x. if sr_id x = i then x\<lparr>sr_weight := w, sr_amount := a\<rparr> else x) rs)
     = map sr_id rs"
  by (induction rs) auto




lemma ledger_cost_alt:
  "ledger_cost rs =
     sum_list (map (\<lambda>r. if sr_type r = ''in'' then fin_value (sr_amount r) else 0) rs)"
  by (simp add: ledger_cost_def sum_list_map_filter')

lemma ledger_sales_alt:
  "ledger_sales rs =
     sum_list (map (\<lambda>r. if sr_type r = ''out'' then fin_value (sr_amount r) else 0) rs)"
  by (simp add: ledger_sales_def sum_list_map_filter')

lemma store_Finite [simp]: "store (Finite x) = Some (Finite x)"
  by (simp add: store_def)

lemma store_PosInf [simp]: "store PosInf = Some PosInf"
  by (simp add: store_def)

lemma store_NegInf [simp]: "store NegInf = Some NegInf"
  by (simp add: store_def)

lemma store_NaN [simp]: "store NaN = None"
  by (simp add: store_def)

subsection \<open>The branches of the handlers\<close>

lemma stock_in_ok:
  assumes "truthy weight" and "truthy amount"
    and "as_float weight = Some w" and "as_float amount = Some a"
    and "w \<noteq> NaN" and "a \<noteq> NaN"
    and "current_stock (summary s) = Some cs" and "total_cost (summary s) = Some tc"
  shows "stock_in weight amount now s =
     (Success,
      s\<lparr>records := records s @
           [\<lparr>sr_id = next_id (records s), sr_type = ''in'', sr_weight = w,
             sr_amount = a, sr_created_at = now, sr_unit = ''kg''\<rparr>],
        summary := (summary s)
           \<lparr>current_stock := store (fadd cs w), total_cost := store (fadd tc a)\<rparr>\<rparr>)"
  using assms by (simp add: stock_in_def)



lemma stock_out_ok:
  assumes "truthy weight" and "truthy amount"
    and "half_of weight = Some weight_kg"
    and "current_stock (summary s) = Some cs" and "\<not> flt cs weight_kg"
    and "as_float weight = Some w" and "as_float amount = Some a"
    and "w \<noteq> NaN" and "a \<noteq> NaN"
    and "total_sales (summary s) = Some ts"
  shows "stock_out weight amount now s =
     (Success,
      s\<lparr>records := records s @
           [\<lparr>sr_id = next_id (records s), sr_type = ''out'', sr_weight = w,
             sr_amount = a, sr_created_at = now, sr_unit = ''jin''\<rparr>],
        summary := (summary s)
           \<lparr>current_stock := store (fsub cs weight_kg),
            total_sales := store (fadd ts a)\<rparr>\<rparr>)"
  using assms by (simp add: stock_out_def)

lemma stock_out_short:
  assumes "truthy weight" and "truthy amount"
    and "half_of weight = Some weight_kg"
    and "current_stock (summary s) = Some cs" and "flt cs weight_kg"
  shows "stock_out weight amount now s = (Failure InsufficientStock, s)"
  using assms by (simp add: stock_out_def)



lemma delete_record_too_large:
  "sqlite_max_int < i \<Longrightarrow> delete_record i s = (Failure ServerError, s)"
  by (simp add: delete_record_def)

lemma delete_record_not_found:
  "i \<le> sqlite_max_int \<Longrightarrow> find (\<lambda>x. sr_id x = i) (records s) = None \<Longrightarrow>
   delete_record i s = (Failure NotFound, s)"
  by (simp add: delete_record_def)

lemma delete_record_in:
  assumes "i \<le> sqlite_max_int" and "find (\<lambda>x. sr_id x = i) (records s) = Some r"
    and "sr_type r = ''in''"
    and "current_stock (summary s) = Some cs" and "total_cost (summary s) = Some tc"
  shows "delete_record i s =
     (Success,
      s\<lparr>records := filter (\<lambda>x. sr_id x \<noteq> i) (records s),
        summary := (summary s)
           \<lparr>current_stock := store (fsub cs (sr_weight r)),
            total_cost := store (fsub tc (sr_amount r))\<rparr>\<rparr>)"
  using assms by (simp add: delete_record_def)

lemma delete_record_out:
  assumes "i \<le> sqlite_max_int" and "find (\<lambda>x. sr_id x = i) (records s) = Some r"
    and "sr_type r \<noteq> ''in''"
    and "current_stock (summary s) = Some cs" and "total_sales (summary s) = Some ts"
  shows "delete_record i s =
     (Success,
      s\<lparr>records := filter (\<lambda>x. sr_id x \<noteq> i) (records s),
        summary := (summary s)
           \<lparr>current_stock := store (fadd cs (fdiv2 (sr_weight r))),
            total_sales := store (fsub ts (sr_amount r))\<rparr>\<rparr>)"
  using assms by (simp add: delete_record_def)

lemma delete_record_unchanged:
  "fst (delete_record i s) \<noteq> Success \<Longrightarrow> snd (delete_record i s) = s"
  by (auto simp add: delete_record_def Let_def split: option.splits if_splits)

lemma update_record_too_large:
  "sqlite_max_int < i \<Longrightarrow> update_record i weight amount s = (Failure ServerError, s)"
  by (simp add: update_record_def)

lemma update_record_not_found:
  "i \<le> sqlite_max_int \<Longrightarrow> find (\<lambda>x. sr_id x = i) (records s) = None \<Longrightarrow>
   update_record i weight amount s = (Failure NotFound, s)"
  by (simp add: update_record_def)

lemma update_record_missing:
  "i \<le> sqlite_max_int \<Longrightarrow> find (\<lambda>x. sr_id x = i) (records s) = Some r \<Longrightarrow>
   \<not> (truthy weight \<and> truthy amount) \<Longrightarrow>
   update_record i weight amount s = (Failure MissingParams, s)"
  by (simp add: update_record_def)





subsection \<open>Conversions of request values\<close>


lemma half_of_int: "\<bar>n\<bar> < 2 ^ 53 \<Longrightarrow> half_of (JInt n) = Some (Finite (of_int n / 2))"
  by (simp add: half_of_def round_exact_half)


lemma half_of_huge: "2 ^ 1025 \<le> n \<Longrightarrow> half_of (JInt n) = None"
proof -
  assume "2 ^ 1025 \<le> n"
  then have "rat_of_int (2 ^ 1025) \<le> of_int n" by (simp only: of_int_le_iff)
  then have "2 ^ 1024 \<le> rat_of_int n / 2" by simp
  then have "round_to_double (of_int n / 2) = PosInf" by (rule round_overflow)
  then show ?thesis by (simp add: half_of_def)
qed


lemma half_of_1e400: "half_of (JInt (10 ^ 400)) = None"
  by (rule half_of_huge) simp

lemma round_1e400: "round_to_double (10 ^ 400) = PosInf"
  by (rule round_overflow) simp

lemma round_min_subnormal: "round_to_double (1 / 2 ^ 1074) = Finite (1 / 2 ^ 1074)"
  using round_exact [of "1 / 2 ^ 1074" 1 "- 1074"] by (simp add: power_int_minus_divide)

lemma round_half_min_subnormal: "round_to_double (1 / 2 ^ 1074 / 2) = Finite 0"
  by (rule round_tiny) simp_all

lemma round_1e16: "round_to_double (10 ^ 16) = Finite (10 ^ 16)"
  using round_exact [of "10 ^ 16" "5 * 10 ^ 15" 1] by simp

lemma round_tie_1e16: "round_to_double (10 ^ 16 + 1) = Finite (10 ^ 16)"
  by code_simp

lemma round_tie_below_1e16: "round_to_double (10 ^ 16 - 1) = Finite (10 ^ 16)"
  by code_simp

text \<open>Small whole numbers and halves are doubles; these rules evaluate them.\<close>

lemmas eval_double =
  as_float_def half_of_def fsub_def round_numeral round_numeral_half round_neg

subsection \<open>Unknown movements\<close>

text \<open>
  Claim C8. \<open>PUT\<close> and \<open>DELETE /api/stock/records/<id>\<close> with an id that the key column
  can hold (at most \<open>2 ^ 63 - 1\<close>) and that no movement carries answer 404 and leave the
  ledger and the totals as they were.
\<close>

theorem unknown_id_not_found:
  "record_id \<le> sqlite_max_int \<Longrightarrow> record_id \<notin> sr_id ` set (records s) \<Longrightarrow>
   update_record record_id weight amount s = (Failure NotFound, s) \<and>
   delete_record record_id s = (Failure NotFound, s) \<and>
   http_status NotFound = 404"
  by (simp add: find_id_None [symmetric] update_record_not_found delete_record_not_found)

theorem unknown_id_not_found_witness:
  "2 \<le> sqlite_max_int \<and> 2 \<notin> sr_id ` set (records inbound_3_12) \<and>
   update_record 2 (JInt 1) (JInt 1) inbound_3_12 = (Failure NotFound, inbound_3_12) \<and>
   delete_record 2 inbound_3_12 = (Failure NotFound, inbound_3_12)"
proof -
  have b: "2 \<le> sqlite_max_int" by (simp add: sqlite_max_int_def)
  have h: "2 \<notin> sr_id ` set (records inbound_3_12)" by (simp add: inbound_3_12_def)
  show ?thesis
    using b h unknown_id_not_found [OF b h, of "JInt 1" "JInt 1"] by simp
qed

theorem unknown_id_counterexample:
  "2 ^ 63 \<notin> sr_id ` set (records inbound_3_12) \<and>
   update_record (2 ^ 63) (JInt 1) (JInt 1) inbound_3_12 = (Failure ServerError, inbound_3_12) \<and>
   delete_record (2 ^ 63) inbound_3_12 = (Failure ServerError, inbound_3_12) \<and>
   http_status ServerError = 500"
proof -
  have b: "sqlite_max_int < 2 ^ 63" by (simp add: sqlite_max_int_def)
  have h: "2 ^ 63 \<notin> sr_id ` set (records inbound_3_12)" by (simp add: inbound_3_12_def)
  have u: "update_record (2 ^ 63) (JInt 1) (JInt 1) inbound_3_12
      = (Failure ServerError, inbound_3_12)"
    using b by (rule update_record_too_large)
  have d: "delete_record (2 ^ 63) inbound_3_12 = (Failure ServerError, inbound_3_12)"
    using b by (rule delete_record_too_large)
  have e: "http_status ServerError = 500" by simp
  from h u d e show ?thesis by blast
qed

subsection \<open>Selling more than the stock\<close>

text \<open>
  Claim C2. When weight and amount are truthy, the halved weight is a float and the
  stored stock is (as floats) less than it, \<open>stock_out\<close> answers 400, insufficient stock,
  and the ledger and the totals are as they were.
\<close>

theorem stock_out_insufficient:
  "truthy weight \<Longrightarrow> truthy amount \<Longrightarrow> half_of weight = Some weight_kg \<Longrightarrow>
   current_stock (summary s) = Some cs \<Longrightarrow> flt cs weight_kg \<Longrightarrow>
   stock_out weight amount now s = (Failure InsufficientStock, s) \<and>
   http_status InsufficientStock = 400"
  by (simp add: stock_out_short)

theorem stock_out_insufficient_witness:
  "current_stock (summary inbound_3_12) = Some (Finite 3) \<and>
   half_of (JInt 10) = Some (Finite 5) \<and> flt (Finite 3) (Finite 5) \<and>
   stock_out (JInt 10) (JInt 50) 0 inbound_3_12 = (Failure InsufficientStock, inbound_3_12)"
proof -
  have c: "current_stock (summary inbound_3_12) = Some (Finite 3)"
    by (simp add: inbound_3_12_def)
  have h: "half_of (JInt 10) = Some (Finite 5)" by (simp add: eval_double)
  have l: "flt (Finite 3) (Finite 5)" by simp
  show ?thesis
    using c h l stock_out_insufficient [of "JInt 10" "JInt 50", OF _ _ h c l]
    by simp
qed

theorem stock_out_insufficient_counterexample:
  "current_stock (summary inbound_3_12) = Some (Finite 3) \<and>
   (3::rat) < 10 ^ 400 / 2 \<and>
   stock_out (JInt (10 ^ 400)) (JInt 50) 0 inbound_3_12 = (Failure ServerError, inbound_3_12) \<and>
   current_stock (summary init_db) = Some (Finite 0) \<and>
   (0::rat) < 1 / 2 ^ 1074 / 2 \<and>
   fst (stock_out (JReal (1 / 2 ^ 1074)) (JInt 50) 0 init_db) = Success"
proof -
  have c3: "current_stock (summary inbound_3_12) = Some (Finite 3)"
    by (simp add: inbound_3_12_def)
  have big: "stock_out (JInt (10 ^ 400)) (JInt 50) 0 inbound_3_12
      = (Failure ServerError, inbound_3_12)"
    unfolding stock_out_def half_of_1e400 by simp
  have c0: "current_stock (summary init_db) = Some (Finite 0)"
    and t0: "total_sales (summary init_db) = Some (Finite 0)"
    by (simp_all add: init_db_def)
  have tw: "truthy (JReal (1 / 2 ^ 1074))"
    unfolding truthy.simps round_min_subnormal by simp
  have ta: "truthy (JInt 50)" by simp
  have hw: "half_of (JReal (1 / 2 ^ 1074)) = Some (Finite 0)"
    unfolding half_of_def py_number.simps option.case halve.simps round_min_subnormal
      fdiv2.simps round_half_min_subnormal ..
  have nl: "\<not> flt (Finite 0) (Finite 0)" by simp
  have fw: "as_float (JReal (1 / 2 ^ 1074)) = Some (Finite (1 / 2 ^ 1074))"
    unfolding as_float_def py_number.simps option.case to_float.simps round_min_subnormal ..
  have fa: "as_float (JInt 50) = Some (Finite 50)" by (simp add: eval_double)
  have ok: "fst (stock_out (JReal (1 / 2 ^ 1074)) (JInt 50) 0 init_db) = Success"
    by (simp only: stock_out_ok [OF tw ta hw c0 nl fw fa _ _ t0] double.distinct
        not_False_eq_True fst_conv)
  have r3: "(3::rat) < 10 ^ 400 / 2" by simp
  have r0: "(0::rat) < 1 / 2 ^ 1074 / 2" by simp
  from c3 r3 big c0 r0 ok show ?thesis by blast
qed

subsection \<open>Buying\<close>




subsection \<open>Deleting\<close>

text \<open>
  Claim C7. For the id of a movement in the ledger (at most \<open>2 ^ 63 - 1\<close>) and totals
  that are not NULL, \<open>delete_record\<close> succeeds, removes the movement and undoes its
  contribution in float arithmetic: a purchase takes its weight off the stock and its
  amount off the cost, a sale puts half its weight back and takes its amount off the
  sales.
\<close>

theorem delete_record_reverses:
  "record_id \<le> sqlite_max_int \<Longrightarrow>
   find (\<lambda>x. sr_id x = record_id) (records s) = Some r \<Longrightarrow>
   current_stock (summary s) = Some cs \<Longrightarrow>
   (if sr_type r = ''in'' then total_cost (summary s) else total_sales (summary s)) = Some t \<Longrightarrow>
   fst (delete_record record_id s) = Success \<and>
   records (snd (delete_record record_id s)) = filter (\<lambda>x. sr_id x \<noteq> record_id) (records s) \<and>
   record_id \<notin> sr_id ` set (records (snd (delete_record record_id s))) \<and>
   current_stock (summary (snd (delete_record record_id s))) =
     store (if sr_type r = ''in'' then fsub cs (sr_weight r)
            else fadd cs (fdiv2 (sr_weight r))) \<and>
   total_cost (summary (snd (delete_record record_id s))) =
     (if sr_type r = ''in'' then store (fsub t (sr_amount r)) else total_cost (summary s)) \<and>
   total_sales (summary (snd (delete_record record_id s))) =
     (if sr_type r = ''in'' then total_sales (summary s) else store (fsub t (sr_amount r)))"
proof -
  assume b: "record_id \<le> sqlite_max_int"
    and f: "find (\<lambda>x. sr_id x = record_id) (records s) = Some r"
    and c: "current_stock (summary s) = Some cs"
    and t: "(if sr_type r = ''in'' then total_cost (summary s) else total_sales (summary s))
              = Some t"
  show ?thesis
  proof (cases "sr_type r = ''in''")
    case True
    with t have tc: "total_cost (summary s) = Some t" by simp
    show ?thesis
      unfolding delete_record_in [OF b f True c tc] using True by auto
  next
    case False
    with t have ts: "total_sales (summary s) = Some t" by simp
    show ?thesis
      unfolding delete_record_out [OF b f False c ts] using False by auto
  qed
qed

theorem delete_record_reverses_witness:
  "current_stock (summary inbound_3_12) = Some (Finite 3) \<and>
   total_cost (summary inbound_3_12) = Some (Finite 12) \<and>
   fst (delete_record 1 inbound_3_12) = Success \<and>
   records (snd (delete_record 1 inbound_3_12)) = [] \<and>
   current_stock (summary (snd (delete_record 1 inbound_3_12))) = Some (Finite 0) \<and>
   total_cost (summary (snd (delete_record 1 inbound_3_12))) = Some (Finite 0)"
proof -
  let ?r = "\<lparr>sr_id = 1, sr_type = ''in'', sr_weight = Finite 3, sr_amount = Finite 12,
            sr_created_at = 0, sr_unit = ''kg''\<rparr>"
  have b: "1 \<le> sqlite_max_int" by (simp add: sqlite_max_int_def)
  have f: "find (\<lambda>x. sr_id x = 1) (records inbound_3_12) = Some ?r"
    by (simp add: inbound_3_12_def)
  have c: "current_stock (summary inbound_3_12) = Some (Finite 3)"
    by (simp add: inbound_3_12_def)
  have t: "(if sr_type ?r = ''in'' then total_cost (summary inbound_3_12)
            else total_sales (summary inbound_3_12)) = Some (Finite 12)"
    by (simp add: inbound_3_12_def)
  show ?thesis
    using delete_record_reverses [OF b f c t] by (simp add: inbound_3_12_def eval_double)
qed

lemma run_to_null_stock:
  "run cst [StockIn (JInt 5) (JInt 20) 0, StockIn (JReal (10 ^ 400)) (JInt 1) 1,
            DeleteRecord 2] init_db = null_stock"
proof -
  let ?r1 = "\<lparr>sr_id = 1, sr_type = ''in'', sr_weight = Finite 5, sr_amount = Finite 20,
             sr_created_at = 0, sr_unit = ''kg''\<rparr>"
  let ?r2 = "\<lparr>sr_id = 2, sr_type = ''in'', sr_weight = PosInf, sr_amount = Finite 1,
             sr_created_at = 1, sr_unit = ''kg''\<rparr>"
  let ?s1 = "\<lparr>records = [?r1],
      summary = \<lparr>current_stock = Some (Finite 5), total_sales = Some (Finite 0),
                 total_cost = Some (Finite 20)\<rparr>\<rparr>"
  let ?s2 = "\<lparr>records = [?r1, ?r2],
      summary = \<lparr>current_stock = Some PosInf, total_sales = Some (Finite 0),
                 total_cost = Some (Finite 21)\<rparr>\<rparr>"
  have s1: "stock_in (JInt 5) (JInt 20) 0 init_db = (Success, ?s1)"
    by (simp add: stock_in_def init_db_def next_id_def eval_double)
  have tw: "truthy (JReal (10 ^ 400))" unfolding truthy.simps round_1e400 by simp
  have fw: "as_float (JReal (10 ^ 400)) = Some PosInf"
    unfolding as_float_def py_number.simps option.case to_float.simps round_1e400 ..
  have fa: "as_float (JInt 1) = Some (Finite 1)" by (simp add: eval_double)
  have ta: "truthy (JInt 1)" by simp
  have n1: "PosInf \<noteq> NaN" and n2: "Finite 1 \<noteq> NaN" by simp_all
  have c1: "current_stock (summary ?s1) = Some (Finite 5)"
    and t1: "total_cost (summary ?s1) = Some (Finite 20)" by simp_all
  note ok = stock_in_ok [OF tw ta fw fa n1 n2 c1 t1, of 1]
  have s2: "stock_in (JReal (10 ^ 400)) (JInt 1) 1 ?s1 = (Success, ?s2)"
    unfolding ok by (simp add: next_id_def eval_double)
  have b: "2 \<le> sqlite_max_int" by (simp add: sqlite_max_int_def)
  have s3: "delete_record 2 ?s2 = (Success, null_stock)"
    by (simp add: delete_record_def sqlite_max_int_def null_stock_def eval_double)
  show ?thesis
    by (simp only: run.simps handle.simps s1 s2 s3 snd_conv)
qed

lemma run_to_large_stock:
  "run cst [StockIn (JReal (10 ^ 16)) (JInt 1) 0, StockOut (JInt 2) (JInt 1) 1] init_db
     = large_stock"
proof -
  let ?r1 = "\<lparr>sr_id = 1, sr_type = ''in'', sr_weight = Finite (10 ^ 16), sr_amount = Finite 1,
             sr_created_at = 0, sr_unit = ''kg''\<rparr>"
  let ?s1 = "\<lparr>records = [?r1],
      summary = \<lparr>current_stock = Some (Finite (10 ^ 16)), total_sales = Some (Finite 0),
                 total_cost = Some (Finite 1)\<rparr>\<rparr>"
  have tw: "truthy (JReal (10 ^ 16))" unfolding truthy.simps round_1e16 by simp
  have fw: "as_float (JReal (10 ^ 16)) = Some (Finite (10 ^ 16))"
    unfolding as_float_def py_number.simps option.case to_float.simps round_1e16 ..
  have fa: "as_float (JInt 1) = Some (Finite 1)" by (simp add: eval_double)
  have ta: "truthy (JInt 1)" by simp
  have n1: "Finite (10 ^ 16) \<noteq> NaN" and n2: "Finite 1 \<noteq> NaN" by simp_all
  have c0: "current_stock (summary init_db) = Some (Finite 0)"
    and t0: "total_cost (summary init_db) = Some (Finite 0)" by (simp_all add: init_db_def)
  have a0: "fadd (Finite 0) (Finite (10 ^ 16)) = Finite (10 ^ 16)"
    unfolding fadd.simps add_0 round_1e16 ..
  have s1: "stock_in (JReal (10 ^ 16)) (JInt 1) 0 init_db = (Success, ?s1)"
    unfolding stock_in_ok [OF tw ta fw fa n1 n2 c0 t0] a0
    by (simp add: init_db_def next_id_def)
  have t2: "truthy (JInt 2)" by simp
  have h2: "half_of (JInt 2) = Some (Finite 1)" by (simp add: eval_double)
  have f2: "as_float (JInt 2) = Some (Finite 2)" by (simp add: eval_double)
  have c1: "current_stock (summary ?s1) = Some (Finite (10 ^ 16))"
    and ts1: "total_sales (summary ?s1) = Some (Finite 0)" by simp_all
  have nl: "\<not> flt (Finite (10 ^ 16)) (Finite 1)" by simp
  have n3: "Finite 2 \<noteq> NaN" by simp
  have sb: "fsub (Finite (10 ^ 16)) (Finite 1) = Finite (10 ^ 16)"
    unfolding fsub_def fneg.simps fadd.simps
    using round_tie_below_1e16 by (simp only: diff_conv_add_uminus)
  have s2: "stock_out (JInt 2) (JInt 1) 1 ?s1 = (Success, large_stock)"
    unfolding stock_out_ok [OF t2 ta h2 c1 nl f2 fa n3 n2 ts1] sb
    by (simp add: large_stock_def next_id_def)
  show ?thesis
    by (simp only: run.simps handle.simps s1 s2 snd_conv)
qed

theorem delete_record_reverses_counterexample:
  "run cst [StockIn (JInt 5) (JInt 20) 0, StockIn (JReal (10 ^ 400)) (JInt 1) 1,
            DeleteRecord 2] init_db = null_stock \<and>
   find (\<lambda>x. sr_id x = 1) (records null_stock) =
     Some \<lparr>sr_id = 1, sr_type = ''in'', sr_weight = Finite 5, sr_amount = Finite 20,
           sr_created_at = 0, sr_unit = ''kg''\<rparr> \<and>
   delete_record 1 null_stock = (Failure ServerError, null_stock) \<and>
   run cst [StockIn (JReal (10 ^ 16)) (JInt 1) 0, StockOut (JInt 2) (JInt 1) 1] init_db
     = large_stock \<and>
   find (\<lambda>x. sr_id x = 2) (records large_stock) =
     Some \<lparr>sr_id = 2, sr_type = ''out'', sr_weight = Finite 2, sr_amount = Finite 1,
           sr_created_at = 1, sr_unit = ''jin''\<rparr> \<and>
   current_stock (summary large_stock) = Some (Finite (10 ^ 16)) \<and>
   current_stock (summary (snd (delete_record 2 large_stock))) = Some (Finite (10 ^ 16))"
proof -
  have f: "find (\<lambda>x. sr_id x = 1) (records null_stock) =
     Some \<lparr>sr_id = 1, sr_type = ''in'', sr_weight = Finite 5, sr_amount = Finite 20,
           sr_created_at = 0, sr_unit = ''kg''\<rparr>"
    by (simp add: null_stock_def)
  have d: "delete_record 1 null_stock = (Failure ServerError, null_stock)"
    by (simp add: delete_record_def sqlite_max_int_def null_stock_def)
  let ?r = "\<lparr>sr_id = 2, sr_type = ''out'', sr_weight = Finite 2, sr_amount = Finite 1,
           sr_created_at = 1, sr_unit = ''jin''\<rparr>"
  have b: "2 \<le> sqlite_max_int" by (simp add: sqlite_max_int_def)
  have f': "find (\<lambda>x. sr_id x = 2) (records large_stock) = Some ?r"
    by (simp add: large_stock_def)
  have c': "current_stock (summary large_stock) = Some (Finite (10 ^ 16))"
    and t': "total_sales (summary large_stock) = Some (Finite 1)"
    by (simp_all add: large_stock_def)
  have ty: "sr_type ?r \<noteq> ''in''" by simp
  have h: "fdiv2 (sr_weight ?r) = Finite 1" by (simp add: eval_double)
  have "current_stock (summary (snd (delete_record 2 large_stock)))
      = store (fadd (Finite (10 ^ 16)) (fdiv2 (sr_weight ?r)))"
    unfolding delete_record_out [OF b f' ty c' t'] by simp
  also have "\<dots> = Some (Finite (10 ^ 16))"
    unfolding h fadd.simps round_tie_1e16 by (rule store_Finite)
  finally have l: "current_stock (summary (snd (delete_record 2 large_stock)))
      = Some (Finite (10 ^ 16))" .
  from run_to_null_stock f d run_to_large_stock f' c' l show ?thesis by blast
qed

subsection \<open>Updating\<close>




subsection \<open>Reading\<close>

text \<open>
  Claim C10. The summary read and the listing, for every choice of the two date
  parameters and every display offset, leave the ledger and the totals as they were.
\<close>

theorem reads_do_not_write:
  "snd (get_summary s) = s \<and> snd (get_records tz start_time end_time s) = s"
  by (simp add: get_summary_def get_records_def Let_def split: option.splits)

subsection \<open>No stock check on update and delete\<close>

lemma run_buy_10_sell_20:
  "run tz [StockIn (JInt 10) (JInt 100) 0, StockOut (JInt 20) (JInt 200) 1] init_db =
     \<lparr>records = [\<lparr>sr_id = 1, sr_type = ''in'', sr_weight = Finite 10, sr_amount = Finite 100,
                   sr_created_at = 0, sr_unit = ''kg''\<rparr>,
                 \<lparr>sr_id = 2, sr_type = ''out'', sr_weight = Finite 20, sr_amount = Finite 200,
                   sr_created_at = 1, sr_unit = ''jin''\<rparr>],
      summary = \<lparr>current_stock = Some (Finite 0), total_sales = Some (Finite 200),
                 total_cost = Some (Finite 100)\<rparr>\<rparr>"
  by (simp add: init_db_def stock_in_def stock_out_def next_id_def eval_double)

lemma shrink_after_sale:
  "current_stock (summary
      (run tz [StockIn (JInt 10) (JInt 100) 0, StockOut (JInt 20) (JInt 200) 1] init_db))
     = Some (Finite 0) \<and>
   fst (update_record 1 (JInt 1) (JInt 100)
      (run tz [StockIn (JInt 10) (JInt 100) 0, StockOut (JInt 20) (JInt 200) 1] init_db))
     = Success \<and>
   current_stock (summary (snd (update_record 1 (JInt 1) (JInt 100)
      (run tz [StockIn (JInt 10) (JInt 100) 0, StockOut (JInt 20) (JInt 200) 1] init_db))))
     = Some (Finite (- 9))"
  unfolding run_buy_10_sell_20
  by (simp add: update_record_def sqlite_max_int_def eval_double)

lemma delete_after_sale:
  "fst (delete_record 1
      (run tz [StockIn (JInt 10) (JInt 100) 0, StockOut (JInt 20) (JInt 200) 1] init_db))
     = Success \<and>
   current_stock (summary (snd (delete_record 1
      (run tz [StockIn (JInt 10) (JInt 100) 0, StockOut (JInt 20) (JInt 200) 1] init_db))))
     = Some (Finite (- 10))"
  unfolding run_buy_10_sell_20
  by (simp add: delete_record_def sqlite_max_int_def eval_double)

text \<open>
  Claim C5. There is a database reached from the first boot by accepted requests in
  which an update of a purchase succeeds and leaves the stock negative, and in which
  the deletion of that purchase succeeds and leaves the stock negative.
\<close>

theorem update_and_delete_can_leave_negative_stock:
  "(\<exists>qs record_id weight amount c c'.
      current_stock (summary (run tz qs init_db)) = Some (Finite c) \<and> 0 \<le> c \<and>
      truthy weight \<and> truthy amount \<and>
      fst (update_record record_id weight amount (run tz qs init_db)) = Success \<and>
      current_stock (summary (snd (update_record record_id weight amount (run tz qs init_db))))
        = Some (Finite c') \<and> c' < 0)
   \<and>
   (\<exists>qs record_id c c'.
      current_stock (summary (run tz qs init_db)) = Some (Finite c) \<and> 0 \<le> c \<and>
      fst (delete_record record_id (run tz qs init_db)) = Success \<and>
      current_stock (summary (snd (delete_record record_id (run tz qs init_db))))
        = Some (Finite c') \<and> c' < 0)"
proof -
  let ?qs = "[StockIn (JInt 10) (JInt 100) 0, StockOut (JInt 20) (JInt 200) 1]"
  have u: "current_stock (summary (run tz ?qs init_db)) = Some (Finite 0) \<and> (0::rat) \<le> 0 \<and>
      truthy (JInt 1) \<and> truthy (JInt 100) \<and>
      fst (update_record 1 (JInt 1) (JInt 100) (run tz ?qs init_db)) = Success \<and>
      current_stock (summary (snd (update_record 1 (JInt 1) (JInt 100) (run tz ?qs init_db))))
        = Some (Finite (- 9)) \<and> (- 9 :: rat) < 0"
    using shrink_after_sale [of tz] by simp
  have d: "current_stock (summary (run tz ?qs init_db)) = Some (Finite 0) \<and> (0::rat) \<le> 0 \<and>
      fst (delete_record 1 (run tz ?qs init_db)) = Success \<and>
      current_stock (summary (snd (delete_record 1 (run tz ?qs init_db))))
        = Some (Finite (- 10)) \<and> (- 10 :: rat) < 0"
    using shrink_after_sale [of tz] delete_after_sale [of tz] by simp
  from u d show ?thesis by blast
qed

theorem update_and_delete_can_leave_negative_stock_witness:
  "current_stock (summary
      (run cst [StockIn (JInt 10) (JInt 100) 0, StockOut (JInt 20) (JInt 200) 1] init_db))
     = Some (Finite 0) \<and>
   fst (update_record 1 (JInt 1) (JInt 100)
      (run cst [StockIn (JInt 10) (JInt 100) 0, StockOut (JInt 20) (JInt 200) 1] init_db))
     = Success \<and>
   current_stock (summary (snd (update_record 1 (JInt 1) (JInt 100)
      (run cst [StockIn (JInt 10) (JInt 100) 0, StockOut (JInt 20) (JInt 200) 1] init_db))))
     = Some (Finite (- 9)) \<and>
   fst (delete_record 1
      (run cst [StockIn (JInt 10) (JInt 100) 0, StockOut (JInt 20) (JInt 200) 1] init_db))
     = Success \<and>
   current_stock (summary (snd (delete_record 1
      (run cst [StockIn (JInt 10) (JInt 100) 0, StockOut (JInt 20) (JInt 200) 1] init_db))))
     = Some (Finite (- 10))"
  using update_and_delete_can_leave_negative_stock [of cst]
    shrink_after_sale [of cst] delete_after_sale [of cst]
  by simp

subsection \<open>The date filter\<close>

lemma end_bound_any_offset:
  assumes "0 < off" and "off \<le> usec_per_day"
  shows "replace_end_of_day (d * usec_per_day - off) = d * usec_per_day - 1"
proof -
  have k: "0 < usec_per_day" by (simp add: usec_per_day_def)
  have eq: "d * usec_per_day - off = (usec_per_day - off) + (d - 1) * usec_per_day"
    by (simp add: algebra_simps)
  have "(d * usec_per_day - off) div usec_per_day = (d - 1) + (usec_per_day - off) div usec_per_day"
    unfolding eq using k by simp
  also have "(usec_per_day - off) div usec_per_day = 0"
    using assms by (simp add: div_pos_pos_trivial)
  finally have dv: "(d * usec_per_day - off) div usec_per_day = d - 1" by simp
  have "replace_end_of_day (d * usec_per_day - off) = (d - 1) * usec_per_day + (usec_per_day - 1)"
    unfolding replace_end_of_day_def dv by (simp add: usec_per_day_def)
  then show ?thesis by (simp add: algebra_simps)
qed

lemma start_bound_value:
  "min_day < d \<Longrightarrow> d \<le> max_day \<Longrightarrow>
   start_bound (Date d) = Some (Some (d * usec_per_day - (8 * 60 + 6) * 60 * 1000000))"
  by (simp add: strptime_def to_utc_def shanghai_tzinfo_offset_def usec_per_day_def min_day_def)

lemma end_bound_value:
  assumes "min_day < d" and "d \<le> max_day"
  shows "end_bound (Date d) = Some (Some (d * usec_per_day - 1))"
proof -
  have "replace_end_of_day (d * usec_per_day - shanghai_tzinfo_offset) = d * usec_per_day - 1"
    by (rule end_bound_any_offset) (simp_all add: shanghai_tzinfo_offset_def usec_per_day_def)
  moreover have "\<not> d * usec_per_day - shanghai_tzinfo_offset < min_day * usec_per_day"
    using assms(1) by (simp add: shanghai_tzinfo_offset_def usec_per_day_def min_day_def)
  ultimately show ?thesis
    using assms by (simp add: strptime_def to_utc_def)
qed

lemma bounds_out_of_range:
  "\<not> (min_day < d \<and> d \<le> max_day) \<Longrightarrow> start_bound (Date d) = None"
  by (auto simp add: strptime_def to_utc_def shanghai_tzinfo_offset_def usec_per_day_def
      min_day_def max_day_def)

text \<open>
  Claim C4. With \<open>start_time = end_time = D\<close>, a movement made at 23:50 Shanghai time on
  \<open>D\<close> is not listed: the answer is the empty list for every date after 0001-01-01, and
  a 500 for that first date, whose lower bound leaves the range of \<open>datetime\<close>.
\<close>

theorem end_date_drops_local_evening:
  "fst (get_records tz (Date d) (Date d)
     \<lparr>records = [r\<lparr>sr_created_at :=
          d * usec_per_day + (23 * 60 + 50) * 60 * 1000000 - shanghai_offset\<rparr>],
      summary = sm\<rparr>) =
   (if min_day < d \<and> d \<le> max_day then Rows [] else Failure ServerError)"
proof (cases "min_day < d \<and> d \<le> max_day")
  case True
  then have a: "min_day < d" and b: "d \<le> max_day" by simp_all
  show ?thesis
    unfolding get_records_def start_bound_value [OF a b] end_bound_value [OF a b]
    using True by (simp add: Let_def shanghai_offset_def)
next
  case False
  then have n: "start_bound (Date d) = None" by (rule bounds_out_of_range)
  show ?thesis
    unfolding get_records_def n using False by simp
qed

subsection \<open>What the validation accepts\<close>





subsection \<open>Whole numbers are added without rounding\<close>

lemma fsub_Finite: "fsub (Finite x) (Finite y) = round_to_double (x - y)"
  by (simp add: fsub_def)

lemma whole_double_int:
  assumes "whole_double B d"
  shows "\<exists>k::int. d = Finite (of_int k) \<and> \<bar>k\<bar> \<le> int B"
proof (cases d)
  case (Finite x)
  with assms have x: "x = of_int \<lfloor>x\<rfloor>" and b: "\<bar>x\<bar> \<le> of_nat B" by simp_all
  have "\<bar>rat_of_int \<lfloor>x\<rfloor>\<bar> \<le> of_nat B" using x b by simp
  then have "rat_of_int \<bar>\<lfloor>x\<rfloor>\<bar> \<le> rat_of_int (int B)" by simp
  then have "\<bar>\<lfloor>x\<rfloor>\<bar> \<le> int B" by (simp only: of_int_le_iff)
  with x Finite show ?thesis by blast
qed (use assms in simp_all)

lemma whole_double_of_int: "\<bar>k\<bar> \<le> int B \<Longrightarrow> whole_double B (Finite (of_int k))"
proof -
  assume "\<bar>k\<bar> \<le> int B"
  then have "rat_of_int \<bar>k\<bar> \<le> rat_of_int (int B)" by (simp only: of_int_le_iff)
  then show ?thesis by simp
qed

lemma whole_ledger_member:
  "whole_ledger B rs \<Longrightarrow> r \<in> set rs \<Longrightarrow>
   whole_double B (sr_weight r) \<and> whole_double B (sr_amount r)"
  by (simp add: whole_ledger_def list_all_iff)

lemma whole_ledger_finite: "whole_ledger B rs \<Longrightarrow> finite_ledger rs"
proof -
  assume w: "whole_ledger B rs"
  have "is_finite (sr_weight r) \<and> is_finite (sr_amount r)" if "r \<in> set rs" for r
  proof -
    from whole_ledger_member [OF w that] whole_double_int
    obtain k l :: int where "sr_weight r = Finite (of_int k)" "sr_amount r = Finite (of_int l)"
      by blast
    then show ?thesis by simp
  qed
  then show ?thesis by (simp add: finite_ledger_def list_all_iff)
qed

lemma half_grid_sum:
  fixes f :: "'a \<Rightarrow> rat"
  assumes "\<And>r. r \<in> set rs \<Longrightarrow> (\<exists>k::int. 2 * f r = of_int k) \<and> \<bar>f r\<bar> \<le> of_nat B"
  shows "(\<exists>k::int. 2 * sum_list (map f rs) = of_int k) \<and>
         \<bar>sum_list (map f rs)\<bar> \<le> of_nat (length rs * B)"
  using assms
proof (induction rs)
  case Nil
  have "2 * sum_list (map f []) = of_int 0" by simp
  then show ?case by auto
next
  case (Cons x xs)
  from Cons.prems [of x] obtain k :: int where k: "2 * f x = of_int k" and b: "\<bar>f x\<bar> \<le> of_nat B"
    by auto
  from Cons.IH Cons.prems obtain l :: int where l: "2 * sum_list (map f xs) = of_int l"
    and c: "\<bar>sum_list (map f xs)\<bar> \<le> of_nat (length xs * B)" by auto
  have "2 * sum_list (map f (x # xs)) = of_int (k + l)"
    using k l by (simp add: algebra_simps)
  moreover have "\<bar>sum_list (map f (x # xs))\<bar> \<le> of_nat (length (x # xs) * B)"
    using b c by (simp add: algebra_simps)
  ultimately show ?case by blast
qed

lemma contribution_grid:
  assumes "whole_double B (sr_weight r)"
  shows "(\<exists>k::int. 2 * contribution r = of_int k) \<and> \<bar>contribution r\<bar> \<le> of_nat B"
proof -
  from whole_double_int [OF assms] obtain k :: int
    where w: "sr_weight r = Finite (of_int k)" and b: "\<bar>k\<bar> \<le> int B" by blast
  from b have "rat_of_int \<bar>k\<bar> \<le> rat_of_int (int B)" by (simp only: of_int_le_iff)
  then have b': "\<bar>rat_of_int k\<bar> \<le> of_nat B" by simp
  have i: "2 * rat_of_int k = of_int (2 * k)" by simp
  have o: "2 * (- (rat_of_int k / 2)) = of_int (- k)" by simp
  have z: "2 * (0::rat) = of_int 0" by simp
  have h: "\<bar>rat_of_int k / 2\<bar> \<le> of_nat B" using b' by simp
  show ?thesis
    unfolding contribution_def w fin_value.simps using i o z b' h
    by (auto simp only: abs_minus_cancel abs_zero of_nat_0_le_iff split: if_splits)
qed

lemma amount_grid:
  assumes "whole_double B (sr_amount r)"
  shows "(\<exists>k::int. 2 * (if P r then fin_value (sr_amount r) else 0) = of_int k) \<and>
         \<bar>if P r then fin_value (sr_amount r) else 0\<bar> \<le> of_nat B"
proof -
  from whole_double_int [OF assms] obtain k :: int
    where w: "sr_amount r = Finite (of_int k)" and b: "\<bar>k\<bar> \<le> int B" by blast
  from b have "rat_of_int \<bar>k\<bar> \<le> rat_of_int (int B)" by (simp only: of_int_le_iff)
  then have b': "\<bar>rat_of_int k\<bar> \<le> of_nat B" by simp
  have i: "2 * rat_of_int k = of_int (2 * k)" by simp
  have z: "2 * (0::rat) = of_int 0" by simp
  show ?thesis
    unfolding w fin_value.simps using i z b'
    by (auto simp only: abs_zero of_nat_0_le_iff split: if_splits)
qed

lemma grid_exact:
  assumes "(\<exists>k::int. 2 * x = of_int k) \<and> \<bar>x\<bar> \<le> of_nat n" and "n < 2 ^ 52"
  shows "round_to_double x = Finite x"
proof -
  from assms(1) obtain k :: int where k: "2 * x = of_int k" and b: "\<bar>x\<bar> \<le> of_nat n" by blast
  from assms(2) have "(of_nat n :: rat) < of_nat (2 ^ 52)" by (simp only: of_nat_less_iff)
  then have "(of_nat n :: rat) < 2 ^ 52" by simp
  with b have "\<bar>x\<bar> < 2 ^ 52" by simp
  with k show ?thesis by (rule round_half_grid)
qed

lemma ledger_exact:
  assumes "whole_ledger B rs" and "length rs * B < 2 ^ 52"
  shows "round_to_double (ledger_stock rs) = Finite (ledger_stock rs)"
    and "round_to_double (ledger_cost rs) = Finite (ledger_cost rs)"
    and "round_to_double (ledger_sales rs) = Finite (ledger_sales rs)"
proof -
  have "(\<exists>k::int. 2 * sum_list (map contribution rs) = of_int k) \<and>
        \<bar>sum_list (map contribution rs)\<bar> \<le> of_nat (length rs * B)"
    by (rule half_grid_sum) (rule contribution_grid, rule conjunct1,
        rule whole_ledger_member [OF assms(1)])
  then show "round_to_double (ledger_stock rs) = Finite (ledger_stock rs)"
    unfolding ledger_stock_def using assms(2) by (rule grid_exact)
  have "(\<exists>k::int. 2 * sum_list (map (\<lambda>r. if sr_type r = ''in'' then fin_value (sr_amount r)
            else 0) rs) = of_int k) \<and>
        \<bar>sum_list (map (\<lambda>r. if sr_type r = ''in'' then fin_value (sr_amount r) else 0) rs)\<bar>
          \<le> of_nat (length rs * B)"
    by (rule half_grid_sum) (rule amount_grid, rule conjunct2,
        rule whole_ledger_member [OF assms(1)])
  then show "round_to_double (ledger_cost rs) = Finite (ledger_cost rs)"
    unfolding ledger_cost_alt using assms(2) by (rule grid_exact)
  have "(\<exists>k::int. 2 * sum_list (map (\<lambda>r. if sr_type r = ''out'' then fin_value (sr_amount r)
            else 0) rs) = of_int k) \<and>
        \<bar>sum_list (map (\<lambda>r. if sr_type r = ''out'' then fin_value (sr_amount r) else 0) rs)\<bar>
          \<le> of_nat (length rs * B)"
    by (rule half_grid_sum) (rule amount_grid, rule conjunct2,
        rule whole_ledger_member [OF assms(1)])
  then show "round_to_double (ledger_sales rs) = Finite (ledger_sales rs)"
    unfolding ledger_sales_alt using assms(2) by (rule grid_exact)
qed

end
